theory Spec2Isabelle
  imports Main
begin

section \<open>The key store of \<^verbatim>\<open>api/_db.ts\<close>\<close>

text \<open>
  The two tables created by \<^verbatim>\<open>initDatabase\<close> are lists of rows in insertion order, together
  with the two \<^verbatim>\<open>SERIAL\<close> sequences that number them. Timestamps are milliseconds since the
  epoch, the value a JavaScript \<^verbatim>\<open>Date\<close> compares by. Modelling frame: the database is
  reachable (\<^verbatim>\<open>query\<close> finds its connection string and connects), every value fits the type
  of its column, and the server's clock and the database's clock are one clock in UTC, passed to
  each operation as \<open>now\<close>. The relational constraints of the schema (primary keys, the
  \<^verbatim>\<open>UNIQUE\<close> key code, the foreign key of the log table) are part of the model: a statement
  that violates one raises, after the sequence has been advanced, as in PostgreSQL.
\<close>

type_synonym timestamp = int

record access_key =
  id_key :: int
  key_code :: string
  name :: string
  max_uses :: int
  used_count :: int
  expires_at :: "timestamp option"
  is_active :: bool
  created_at :: timestamp

record usage_log =
  id_log :: int
  key_id :: int
  request_text :: string
  success :: bool
  error_msg :: string
  created_at_log :: timestamp

record db =
  access_keys :: "access_key list"
  usage_logs :: "usage_log list"
  access_keys_id_seq :: int
  usage_logs_id_seq :: int

text \<open>The state right after \<^verbatim>\<open>initDatabase\<close> on a fresh database.\<close>

definition initDatabase :: db where
  "initDatabase = \<lparr>access_keys = [], usage_logs = [], access_keys_id_seq = 0, usage_logs_id_seq = 0\<rparr>"

subsection \<open>Errors\<close>

datatype pg_constraint =
  access_keys_pkey | access_keys_key_code_key | usage_logs_pkey | usage_logs_key_id_fkey

text \<open>
  One constructor for each \<^verbatim>\<open>throw\<close> of the repository, named after the category the
  specification gives it; \<open>ConstraintViolation\<close> and \<open>InvalidInteger\<close> are raised by the
  database driver, \<open>Thrown\<close> is an exception of code outside the repository (the generation
  client, \<^verbatim>\<open>JSON.parse\<close>) with its \<^verbatim>\<open>message\<close> property, if it has one.
\<close>

datatype error =
    InvalidKey
  | Expired
  | QuotaExhausted
  | DuplicateName string
  | ConstraintViolation pg_constraint
  | InvalidInteger
  | Misconfiguration
  | NoResponse
  | Thrown "string option"

definition contact :: string where
  "contact = [CHR 0xE8, CHR 0xAF, CHR 0xB7, CHR 0xE8, CHR 0x81, CHR 0x94, CHR 0xE7, CHR 0xB3, CHR 0xBB,
     CHR 0xE7, CHR 0xAE, CHR 0xA1, CHR 0xE7, CHR 0x90, CHR 0x86, CHR 0xE5, CHR 0x91, CHR 0x98]
     @ ''chex490@gmail.com''"

definition constraint_name :: "pg_constraint \<Rightarrow> string" where
  "constraint_name c = (case c of
       access_keys_pkey \<Rightarrow> ''access_keys_pkey''
     | access_keys_key_code_key \<Rightarrow> ''access_keys_key_code_key''
     | usage_logs_pkey \<Rightarrow> ''usage_logs_pkey''
     | usage_logs_key_id_fkey \<Rightarrow> ''usage_logs_key_id_fkey'')"

text \<open>
  \<^verbatim>\<open>error.message\<close>. The texts of \<^verbatim>\<open>_db.ts\<close> are Chinese; they are given as their UTF-8
  bytes. The texts of the driver are cut down to the part that names the constraint.
\<close>

definition message :: "error \<Rightarrow> string option" where
  "message e = (case e of
       InvalidKey \<Rightarrow> Some ([CHR 0xE6, CHR 0x97, CHR 0xA0, CHR 0xE6, CHR 0x95, CHR 0x88, CHR 0xE7, CHR 0x9A, CHR 0x84,
           CHR 0xE8, CHR 0xAE, CHR 0xBF, CHR 0xE9, CHR 0x97, CHR 0xAE, CHR 0xE5, CHR 0xAF, CHR 0x86,
           CHR 0xE9, CHR 0x92, CHR 0xA5] @ '','' @ contact)
     | Expired \<Rightarrow> Some ([CHR 0xE5, CHR 0xAF, CHR 0x86, CHR 0xE9, CHR 0x92, CHR 0xA5, CHR 0xE5, CHR 0xB7, CHR 0xB2,
           CHR 0xE8, CHR 0xBF, CHR 0x87, CHR 0xE6, CHR 0x9C, CHR 0x9F, CHR 0xEF, CHR 0xBC, CHR 0x8C] @ contact)
     | QuotaExhausted \<Rightarrow> Some ([CHR 0xE5, CHR 0xAF, CHR 0x86, CHR 0xE9, CHR 0x92, CHR 0xA5, CHR 0xE4, CHR 0xBD, CHR 0xBF,
           CHR 0xE7, CHR 0x94, CHR 0xA8, CHR 0xE6, CHR 0xAC, CHR 0xA1, CHR 0xE6, CHR 0x95, CHR 0xB0,
           CHR 0xE5, CHR 0xB7, CHR 0xB2, CHR 0xE8, CHR 0x80, CHR 0x97, CHR 0xE5, CHR 0xB0, CHR 0xBD] @ '','' @ contact)
     | DuplicateName n \<Rightarrow> Some ([CHR 0xE5, CHR 0x90, CHR 0x8D, CHR 0xE7, CHR 0xA7, CHR 0xB0] @ '' '' @ [CHR 0x22] @ n
           @ [CHR 0x22] @ '' '' @ [CHR 0xE5, CHR 0xB7, CHR 0xB2, CHR 0xE5, CHR 0xAD, CHR 0x98, CHR 0xE5, CHR 0x9C, CHR 0xA8,
           CHR 0xEF, CHR 0xBC, CHR 0x8C, CHR 0xE8, CHR 0xAF, CHR 0xB7, CHR 0xE4, CHR 0xBD, CHR 0xBF,
           CHR 0xE7, CHR 0x94, CHR 0xA8, CHR 0xE5, CHR 0x85, CHR 0xB6, CHR 0xE4, CHR 0xBB, CHR 0x96,
           CHR 0xE5, CHR 0x90, CHR 0x8D, CHR 0xE7, CHR 0xA7, CHR 0xB0, CHR 0xE3, CHR 0x80, CHR 0x82])
     | ConstraintViolation c \<Rightarrow> Some (''violates constraint '' @ [CHR 0x22] @ constraint_name c @ [CHR 0x22])
     | InvalidInteger \<Rightarrow> Some (''invalid input syntax for type integer: '' @ [CHR 0x22] @ ''NaN'' @ [CHR 0x22])
     | Misconfiguration \<Rightarrow> Some ''Server misconfiguration: GEMINI_API_KEY missing''
     | NoResponse \<Rightarrow> Some ''No response from AI''
     | Thrown m \<Rightarrow> m)"

text \<open>\<^verbatim>\<open>!s\<close> for a string that may be absent, and \<^verbatim>\<open>s || t\<close>.\<close>

definition blank :: "string option \<Rightarrow> bool" where
  "blank s = (s = None \<or> s = Some [])"

definition or_text :: "string option \<Rightarrow> string \<Rightarrow> string" where
  "or_text s t = (if blank s then t else the s)"

text \<open>An operation on the store returns its value or the error it threw, and the store it leaves.\<close>

type_synonym 'a io = "db \<Rightarrow> (error + 'a) \<times> db"

subsection \<open>The operations\<close>

text \<open>
  \<^verbatim>\<open>verifyAccessKey\<close>: the first row of
  \<^verbatim>\<open>SELECT * FROM access_keys WHERE key_code = $1 AND is_active = true\<close>, then the expiry
  test \<^verbatim>\<open>key.expires_at && new Date(key.expires_at) < new Date()\<close> and the quota test
  \<^verbatim>\<open>key.max_uses !== -1 && key.used_count >= key.max_uses\<close>, in this order.
\<close>

definition verifyAccessKey :: "timestamp \<Rightarrow> string \<Rightarrow> access_key io" where
  "verifyAccessKey now keyCode d =
     (case filter (\<lambda>k. key_code k = keyCode \<and> is_active k) (access_keys d) of
        [] \<Rightarrow> (Inl InvalidKey, d)
      | key # _ \<Rightarrow>
          if (case expires_at key of None \<Rightarrow> False | Some t \<Rightarrow> t < now) then (Inl Expired, d)
          else if max_uses key \<noteq> - 1 \<and> used_count key \<ge> max_uses key then (Inl QuotaExhausted, d)
          else (Inr key, d))"

text \<open>\<^verbatim>\<open>UPDATE access_keys SET used_count = used_count + 1 WHERE id = $1\<close>\<close>

definition updateAccessKeyUsage :: "int \<Rightarrow> unit io" where
  "updateAccessKeyUsage keyId d =
     (Inr (), d\<lparr>access_keys :=
        map (\<lambda>k. if id_key k = keyId then k\<lparr>used_count := used_count k + 1\<rparr> else k) (access_keys d)\<rparr>)"

text \<open>
  \<^verbatim>\<open>logUsage\<close>: one \<^verbatim>\<open>INSERT INTO usage_logs\<close>; the text is prefixed with the caller's
  address and the message is \<^verbatim>\<open>errorMsg || ''\<close>.
\<close>

definition logUsage :: "timestamp \<Rightarrow> int \<Rightarrow> string \<Rightarrow> string \<Rightarrow> bool \<Rightarrow> string option \<Rightarrow> unit io" where
  "logUsage now keyId ip requestText succ errorMsg d =
     (let new_id = usage_logs_id_seq d + 1;
          d1 = d\<lparr>usage_logs_id_seq := new_id\<rparr>
      in if new_id \<in> set (map id_log (usage_logs d)) then (Inl (ConstraintViolation usage_logs_pkey), d1)
         else if keyId \<notin> set (map id_key (access_keys d)) then (Inl (ConstraintViolation usage_logs_key_id_fkey), d1)
         else (Inr (), d1\<lparr>usage_logs := usage_logs d @
                 [\<lparr>id_log = new_id, key_id = keyId,
                   request_text = ''[IP: '' @ ip @ ''] '' @ requestText,
                   success = succ, error_msg = or_text errorMsg [], created_at_log = now\<rparr>]\<rparr>))"

text \<open>
  \<^verbatim>\<open>createAccessKey(name, maxUses = -1, daysValid?)\<close>. \<open>rnd\<close> is what the two
  \<^verbatim>\<open>Math.random().toString(36).substring(2, 15)\<close> produce. \<^verbatim>\<open>if (daysValid)\<close> is false for an
  absent and for a zero argument. The columns the \<^verbatim>\<open>INSERT\<close> does not list take their
  defaults: \<^verbatim>\<open>used_count 0\<close>, \<^verbatim>\<open>is_active TRUE\<close>, \<^verbatim>\<open>created_at CURRENT_TIMESTAMP\<close>.
\<close>

definition ms_per_day :: int where
  "ms_per_day = 86400000"

definition createAccessKey :: "timestamp \<Rightarrow> string \<Rightarrow> string \<Rightarrow> int option \<Rightarrow> int option \<Rightarrow> access_key io" where
  "createAccessKey now rnd nm maxUses daysValid d =
     (if filter (\<lambda>k. name k = nm) (access_keys d) \<noteq> [] then (Inl (DuplicateName nm), d)
      else
        let keyCode = ''sk-'' @ rnd;
            expiresAt = (case daysValid of None \<Rightarrow> None
                         | Some n \<Rightarrow> if n = 0 then None else Some (now + n * ms_per_day));
            new_id = access_keys_id_seq d + 1;
            d1 = d\<lparr>access_keys_id_seq := new_id\<rparr>;
            row = \<lparr>id_key = new_id, key_code = keyCode, name = nm,
                   max_uses = (case maxUses of None \<Rightarrow> - 1 | Some m \<Rightarrow> m),
                   used_count = 0, expires_at = expiresAt, is_active = True, created_at = now\<rparr>
        in if new_id \<in> set (map id_key (access_keys d)) then (Inl (ConstraintViolation access_keys_pkey), d1)
           else if keyCode \<in> set (map key_code (access_keys d)) then (Inl (ConstraintViolation access_keys_key_code_key), d1)
           else (Inr row, d1\<lparr>access_keys := access_keys d @ [row]\<rparr>))"

text \<open>
  \<^verbatim>\<open>updateAccessKey\<close>:
  \<^verbatim>\<open>UPDATE access_keys SET max_uses = $2, expires_at = $3 WHERE id = $1 RETURNING *\<close>, and
  \<^verbatim>\<open>result.rows[0]\<close>, which is \<^verbatim>\<open>undefined\<close> (here \<open>None\<close>) when no row matched.
\<close>

definition updateAccessKey :: "int \<Rightarrow> int \<Rightarrow> timestamp option \<Rightarrow> access_key option io" where
  "updateAccessKey i maxUses expiresAt d =
     (let rows = map (\<lambda>k. if id_key k = i then k\<lparr>max_uses := maxUses, expires_at := expiresAt\<rparr> else k)
                   (access_keys d);
          returning = filter (\<lambda>k. id_key k = i) rows
      in (Inr (case returning of [] \<Rightarrow> None | r # _ \<Rightarrow> Some r), d\<lparr>access_keys := rows\<rparr>))"

text \<open>
  \<^verbatim>\<open>deleteAccessKey\<close>: \<^verbatim>\<open>DELETE FROM usage_logs WHERE key_id = $1\<close>, then
  \<^verbatim>\<open>DELETE FROM access_keys WHERE id = $1\<close>. The second statement raises when a deleted key is
  still referenced by a log row.
\<close>

definition delete_usage_logs :: "int \<Rightarrow> unit io" where
  "delete_usage_logs i d = (Inr (), d\<lparr>usage_logs := filter (\<lambda>l. key_id l \<noteq> i) (usage_logs d)\<rparr>)"

definition delete_access_keys :: "int \<Rightarrow> unit io" where
  "delete_access_keys i d =
     (if i \<in> set (map id_key (access_keys d)) \<and> i \<in> set (map key_id (usage_logs d))
      then (Inl (ConstraintViolation usage_logs_key_id_fkey), d)
      else (Inr (), d\<lparr>access_keys := filter (\<lambda>k. id_key k \<noteq> i) (access_keys d)\<rparr>))"

definition deleteAccessKey :: "int \<Rightarrow> unit io" where
  "deleteAccessKey i d =
     (case delete_usage_logs i d of
        (Inl e, d1) \<Rightarrow> (Inl e, d1)
      | (Inr _, d1) \<Rightarrow>
          (case delete_access_keys i d1 of
             (Inl e, d2) \<Rightarrow> (Inl e, d2)
           | (Inr _, d2) \<Rightarrow> (Inr (), d2)))"

text \<open>
  \<^verbatim>\<open>getAllKeys\<close> and \<^verbatim>\<open>getKeyLogs\<close>: newest first; rows of one timestamp stay in table
  order (SQL leaves their order open).
\<close>

definition getAllKeys :: "access_key list io" where
  "getAllKeys d = (Inr (sort_key (\<lambda>k. - created_at k) (access_keys d)), d)"

definition getKeyLogs :: "int \<Rightarrow> usage_log list io" where
  "getKeyLogs keyId d =
     (Inr (take 50 (sort_key (\<lambda>l. - created_at_log l) (filter (\<lambda>l. key_id l = keyId) (usage_logs d)))), d)"


section \<open>The request handlers\<close>

subsection \<open>JavaScript coercions\<close>

text \<open>
  A numeric field of a JSON request body, as far as it is modelled: absent, \<^verbatim>\<open>null\<close>, a boolean
  or an integer. \<open>Number\<close> is JavaScript's \<^verbatim>\<open>Number(x)\<close> on these, \<open>or_else\<close> is
  \<^verbatim>\<open>x || d\<close> on its result, \<open>falsy\<close> is \<^verbatim>\<open>!x\<close>.
\<close>

datatype json_field = Absent | JNull | JBool bool | JInt int

datatype js_number = NaN | Finite int

fun Number :: "json_field \<Rightarrow> js_number" where
  "Number Absent = NaN"
| "Number JNull = Finite 0"
| "Number (JBool b) = Finite (if b then 1 else 0)"
| "Number (JInt n) = Finite n"

fun or_else :: "js_number \<Rightarrow> int \<Rightarrow> int" where
  "or_else NaN d = d"
| "or_else (Finite n) d = (if n = 0 then d else n)"

fun falsy :: "json_field \<Rightarrow> bool" where
  "falsy Absent = True"
| "falsy JNull = True"
| "falsy (JBool b) = (\<not> b)"
| "falsy (JInt n) = (n = 0)"

definition startsWith :: "string \<Rightarrow> string \<Rightarrow> bool" where
  "startsWith s p = (take (length p) s = p)"

fun split :: "char \<Rightarrow> string \<Rightarrow> string list" where
  "split c [] = [[]]"
| "split c (x # xs) =
     (if x = c then [] # split c xs
      else (case split c xs of [] \<Rightarrow> [[x]] | p # ps \<Rightarrow> (x # p) # ps))"

subsection \<open>Responses\<close>

datatype 'a body = NoBody | ErrorBody "string option" | JsonBody 'a

text \<open>\<open>Unhandled\<close>: the handler itself threw (an exception inside its \<^verbatim>\<open>catch\<close> block).\<close>

datatype 'a response = Response nat "'a body" | Unhandled error

subsection \<open>\<^verbatim>\<open>api/generate-card.ts\<close>\<close>

record request =
  req_method :: string
  authorization :: "string option"
  x_forwarded_for :: "string option"
  remoteAddress :: "string option"
  inputText :: "string option"

text \<open>
  What the handler meets outside the store: the variable \<^verbatim>\<open>GEMINI_API_KEY\<close>, what
  \<^verbatim>\<open>ai.models.generateContent\<close> does for this request (it throws, or returns a response with
  its \<^verbatim>\<open>text\<close>), and \<^verbatim>\<open>JSON.parse\<close>.
\<close>

record 'j generation =
  GEMINI_API_KEY :: "string option"
  generateContent :: "error + string option"
  JSON_parse :: "string \<Rightarrow> error + 'j"

definition ip_of :: "request \<Rightarrow> string" where
  "ip_of req = (if \<not> blank (x_forwarded_for req) then the (x_forwarded_for req)
                else or_text (remoteAddress req) ''unknown'')"

text \<open>\<^verbatim>\<open>authHeader.split(' ')[1]\<close>, which is \<^verbatim>\<open>undefined\<close> when there is no second part.\<close>

definition accessKey_of :: "string \<Rightarrow> string option" where
  "accessKey_of authHeader =
     (case split CHR '' '' authHeader of _ # accessKey # _ \<Rightarrow> Some accessKey | _ \<Rightarrow> None)"

text \<open>Steps 2 to 4 of the handler: the generation, between verification and accounting.\<close>

definition generate :: "'j generation \<Rightarrow> error + 'j" where
  "generate g =
     (if blank (GEMINI_API_KEY g) then Inl Misconfiguration
      else (case generateContent g of
              Inl e \<Rightarrow> Inl e
            | Inr text \<Rightarrow> if blank text then Inl NoResponse else JSON_parse g (the text)))"

text \<open>
  The \<^verbatim>\<open>catch\<close> block (lines 115 to 121); \<open>keyId\<close> is what the variable holds when the
  block is entered: 0 until the verification has returned a row.
\<close>

definition catch_block :: "timestamp \<Rightarrow> request \<Rightarrow> int \<Rightarrow> error \<Rightarrow> db \<Rightarrow> 'j response \<times> db" where
  "catch_block now req keyId e d =
     (let resp = Response 500 (ErrorBody (Some (or_text (message e) ''Internal Server Error'')))
      in if keyId > 0
         then (case logUsage now keyId (ip_of req) (or_text (inputText req) []) False (message e) d of
                 (Inl e', d1) \<Rightarrow> (Unhandled e', d1)
               | (Inr _, d1) \<Rightarrow> (resp, d1))
         else (resp, d))"

text \<open>
  The handler. \<open>t\<^sub>1\<close> is the time of the verification, \<open>t\<^sub>2\<close> the time of the accounting. The
  test \<^verbatim>\<open>if (!keyData)\<close> of line 37 has no branch here: \<^verbatim>\<open>verifyAccessKey\<close> returns a row
  or throws. An \<^verbatim>\<open>undefined\<close> access key matches no row.
\<close>

definition generate_card :: "'j generation \<Rightarrow> timestamp \<Rightarrow> timestamp \<Rightarrow> request \<Rightarrow> db \<Rightarrow> 'j response \<times> db" where
  "generate_card g t1 t2 req d =
     (if req_method req = ''OPTIONS'' then (Response 200 NoBody, d)
      else if req_method req \<noteq> ''POST'' then (Response 405 (ErrorBody (Some ''Method not allowed'')), d)
      else if blank (authorization req) \<or> \<not> startsWith (the (authorization req)) ''Bearer ''
      then (Response 401 (ErrorBody (Some ''Missing or invalid Authorization header'')), d)
      else
        (case (case accessKey_of (the (authorization req)) of
                 Some accessKey \<Rightarrow> verifyAccessKey t1 accessKey d
               | None \<Rightarrow> (Inl InvalidKey, d)) of
           (Inl e, d1) \<Rightarrow> catch_block t2 req 0 e d1
         | (Inr keyData, d1) \<Rightarrow>
             (let keyId = id_key keyData in
              case generate g of
                Inl e \<Rightarrow> catch_block t2 req keyId e d1
              | Inr resultData \<Rightarrow>
                  (case updateAccessKeyUsage keyId d1 of
                     (Inl e, d2) \<Rightarrow> catch_block t2 req keyId e d2
                   | (Inr _, d2) \<Rightarrow>
                       (case logUsage t2 keyId (ip_of req) (or_text (inputText req) []) True None d2 of
                          (Inl e, d3) \<Rightarrow> catch_block t2 req keyId e d3
                        | (Inr _, d3) \<Rightarrow> (Response 200 (JsonBody resultData), d3))))))"

subsection \<open>The administrative handlers\<close>

record admin_request =
  admin_method :: string
  x_admin_password :: "string option"
  body_id :: json_field
  body_name :: "string option"
  body_maxUses :: json_field
  body_expiresInDays :: json_field
  body_expiresAt :: "timestamp option"

text \<open>
  The handler of \<^verbatim>\<open>createAccessKey\<close>: \<open>pwd\<close> is the variable \<^verbatim>\<open>ADMIN_PASSWORD\<close>.
\<close>

definition create_key :: "string option \<Rightarrow> timestamp \<Rightarrow> string \<Rightarrow> admin_request \<Rightarrow> db \<Rightarrow> access_key response \<times> db" where
  "create_key pwd now rnd req d =
     (if admin_method req \<noteq> ''POST'' then (Response 405 (ErrorBody (Some ''Method not allowed'')), d)
      else if x_admin_password req \<noteq> pwd then (Response 401 (ErrorBody (Some ''Unauthorized'')), d)
      else if blank (body_name req) then (Response 400 (ErrorBody (Some ''Name is required'')), d)
      else (case createAccessKey now rnd (the (body_name req))
                   (Some (or_else (Number (body_maxUses req)) 100))
                   (Some (or_else (Number (body_expiresInDays req)) 30)) d of
              (Inl e, d1) \<Rightarrow> (Response 500 (ErrorBody (message e)), d1)
            | (Inr newKey, d1) \<Rightarrow> (Response 200 (JsonBody newKey), d1)))"

text \<open>
  The handler of \<^verbatim>\<open>updateAccessKey\<close>. \<^verbatim>\<open>Number(id)\<close> of a truthy field is a number;
  \<^verbatim>\<open>Number(maxUses)\<close> may be \<^verbatim>\<open>NaN\<close>, which the driver refuses as an integer parameter.
  \<open>body_expiresAt\<close> is \<^verbatim>\<open>expiresAt || null\<close>, read as a timestamp.
\<close>

definition update_key :: "string option \<Rightarrow> admin_request \<Rightarrow> db \<Rightarrow> access_key option response \<times> db" where
  "update_key pwd req d =
     (if admin_method req \<noteq> ''POST'' then (Response 405 (ErrorBody (Some ''Method not allowed'')), d)
      else if x_admin_password req \<noteq> pwd then (Response 401 (ErrorBody (Some ''Unauthorized'')), d)
      else if falsy (body_id req) then (Response 400 (ErrorBody (Some ''ID is required'')), d)
      else (case (case (Number (body_id req), Number (body_maxUses req)) of
                    (Finite i, Finite m) \<Rightarrow> updateAccessKey i m (body_expiresAt req) d
                  | _ \<Rightarrow> (Inl InvalidInteger, d)) of
              (Inl e, d1) \<Rightarrow> (Response 500 (ErrorBody (message e)), d1)
            | (Inr updatedKey, d1) \<Rightarrow> (Response 200 (JsonBody updatedKey), d1)))"

section \<open>Stores that respect the schema, and runs of operations\<close>

text \<open>
  \<open>find_key\<close> is the row with a given \<^verbatim>\<open>id\<close>. \<open>constraints\<close> says what the schema and its
  sequences guarantee of a store: primary keys and key codes are unique, every \<^verbatim>\<open>id\<close> was drawn
  from its sequence (which starts at 1), and every log row references a key.
\<close>

definition find_key :: "int \<Rightarrow> db \<Rightarrow> access_key option" where
  "find_key i d = find (\<lambda>k. id_key k = i) (access_keys d)"

definition constraints :: "db \<Rightarrow> bool" where
  "constraints d =
     (distinct (map id_key (access_keys d)) \<and>
      distinct (map key_code (access_keys d)) \<and>
      distinct (map id_log (usage_logs d)) \<and>
      0 \<le> access_keys_id_seq d \<and>
      list_all (\<lambda>k. 0 < id_key k \<and> id_key k \<le> access_keys_id_seq d) (access_keys d) \<and>
      list_all (\<lambda>l. id_log l \<le> usage_logs_id_seq d \<and> key_id l \<in> set (map id_key (access_keys d)))
        (usage_logs d))"

text \<open>Every entry point of the repository that touches the store, as one step on the store.\<close>

datatype 'j op =
    CreateKey timestamp string string "int option" "int option"
  | UpdateKey int int "timestamp option"
  | DeleteKey int
  | Verify timestamp string
  | UpdateUsage int
  | LogUsage timestamp int string string bool "string option"
  | GetAllKeys
  | GetKeyLogs int
  | GenerateCard "'j generation" timestamp timestamp request
  | CreateKeyRequest "string option" timestamp string admin_request
  | UpdateKeyRequest "string option" admin_request

fun exec :: "'j op \<Rightarrow> db \<Rightarrow> db" where
  "exec (CreateKey now rnd nm maxUses daysValid) d = snd (createAccessKey now rnd nm maxUses daysValid d)"
| "exec (UpdateKey i maxUses expiresAt) d = snd (updateAccessKey i maxUses expiresAt d)"
| "exec (DeleteKey i) d = snd (deleteAccessKey i d)"
| "exec (Verify now keyCode) d = snd (verifyAccessKey now keyCode d)"
| "exec (UpdateUsage keyId) d = snd (updateAccessKeyUsage keyId d)"
| "exec (LogUsage now keyId ip requestText succ errorMsg) d = snd (logUsage now keyId ip requestText succ errorMsg d)"
| "exec GetAllKeys d = snd (getAllKeys d)"
| "exec (GetKeyLogs keyId) d = snd (getKeyLogs keyId d)"
| "exec (GenerateCard g t1 t2 req) d = snd (generate_card g t1 t2 req d)"
| "exec (CreateKeyRequest pwd now rnd req) d = snd (create_key pwd now rnd req d)"
| "exec (UpdateKeyRequest pwd req) d = snd (update_key pwd req d)"

fun run :: "'j op list \<Rightarrow> db \<Rightarrow> db" where
  "run [] d = d"
| "run (x # xs) d = run xs (exec x d)"


section \<open>A scenario\<close>

text \<open>
  The key \<^verbatim>\<open>"promo"\<close> of the specification's scenario, created at time 0 with
  \<^verbatim>\<open>maxUses = 2\<close> and \<^verbatim>\<open>daysValid = 1\<close>; the store that holds it; the same store after one
  successful generation; a request that presents the key and one that presents an unknown key;
  a generation that succeeds, one that runs without its API key, and one whose client throws
  an exception without a message; an administrative request.
\<close>

definition promo :: access_key where
  "promo = \<lparr>id_key = 1, key_code = ''sk-promo'', name = ''promo'', max_uses = 2, used_count = 0,
             expires_at = Some 86400000, is_active = True, created_at = 0\<rparr>"

definition promo_store :: db where
  "promo_store = \<lparr>access_keys = [promo], usage_logs = [], access_keys_id_seq = 1, usage_logs_id_seq = 0\<rparr>"

definition promo_used :: db where
  "promo_used = \<lparr>access_keys = [promo\<lparr>used_count := 1\<rparr>],
                  usage_logs = [\<lparr>id_log = 1, key_id = 1, request_text = ''[IP: 10.0.0.7] hello'',
                                 success = True, error_msg = [], created_at_log = 6\<rparr>],
                  access_keys_id_seq = 1, usage_logs_id_seq = 1\<rparr>"


definition stranger_request :: request where
  "stranger_request = \<lparr>req_method = ''POST'', authorization = Some ''Bearer sk-none'',
                        x_forwarded_for = Some ''10.0.0.7'', remoteAddress = None, inputText = Some ''hello''\<rparr>"

definition generation_ok :: "string generation" where
  "generation_ok = \<lparr>GEMINI_API_KEY = Some ''g'', generateContent = Inr (Some ''{}''), JSON_parse = Inr\<rparr>"




section \<open>Properties\<close>

subsection \<open>Verification and the two paths of the generation handler\<close>

lemma filter_code:
  assumes "distinct (map key_code ks)" "K \<in> set ks"
  shows "filter (\<lambda>k. key_code k = key_code K \<and> is_active k) ks = (if is_active K then [K] else [])"
  using assms
  by (induction ks) (auto simp: filter_empty_conv image_iff)

lemma verify_cases:
  assumes "K \<in> set (access_keys d)" "distinct (map key_code (access_keys d))"
  shows "fst (verifyAccessKey now (key_code K) d) =
     (if \<not> is_active K then Inl InvalidKey
      else if (case expires_at K of None \<Rightarrow> False | Some t \<Rightarrow> t < now) then Inl Expired
      else if max_uses K \<noteq> - 1 \<and> max_uses K \<le> used_count K then Inl QuotaExhausted
      else Inr K)"
  using filter_code[OF assms(2,1)] by (simp add: verifyAccessKey_def)

lemma verify_store: "snd (verifyAccessKey now c d) = d"
  by (simp add: verifyAccessKey_def split: list.splits)








lemma reach_verification:
  assumes "req_method req = ''POST''" "authorization req = Some h" "startsWith h ''Bearer ''"
    "accessKey_of h = Some code"
  shows "generate_card g t1 t2 req d =
        (case verifyAccessKey t1 code d of
           (Inl e, d1) \<Rightarrow> catch_block t2 req 0 e d1
         | (Inr keyData, d1) \<Rightarrow>
             (case generate g of
                Inl e \<Rightarrow> catch_block t2 req (id_key keyData) e d1
              | Inr resultData \<Rightarrow>
                  (case updateAccessKeyUsage (id_key keyData) d1 of
                     (Inl e, d2) \<Rightarrow> catch_block t2 req (id_key keyData) e d2
                   | (Inr _, d2) \<Rightarrow>
                       (case logUsage t2 (id_key keyData) (ip_of req) (or_text (inputText req) []) True None d2 of
                          (Inl e, d3) \<Rightarrow> catch_block t2 req (id_key keyData) e d3
                        | (Inr _, d3) \<Rightarrow> (Response 200 (JsonBody resultData), d3)))))"
proof -
  have "h \<noteq> []" using assms(3) by (auto simp: startsWith_def)
  then have "\<not> blank (authorization req)" using assms(2) by (simp add: blank_def)
  then show ?thesis using assms
    by (simp add: generate_card_def Let_def split: prod.splits sum.splits)
qed



lemma rejection_path:
  assumes "req_method req = ''POST''" "authorization req = Some h" "startsWith h ''Bearer ''"
    and "accessKey_of h = Some code"
    and "fst (verifyAccessKey t1 code d) = Inl e"
  shows "generate_card g t1 t2 req d =
     (Response 500 (ErrorBody (Some (or_text (message e) ''Internal Server Error''))), d)"
proof -
  have v: "verifyAccessKey t1 code d = (Inl e, d)"
    using assms(5) verify_store[of t1 code d] by (metis prod.collapse)
  show ?thesis
    unfolding reach_verification[OF assms(1-4)] v
    by (simp add: catch_block_def Let_def)
qed

subsection \<open>Rows by \<^verbatim>\<open>id\<close>\<close>








subsection \<open>What each operation does to the row of one \<^verbatim>\<open>id\<close>\<close>

lemma find_key_verify: "find_key i (snd (verifyAccessKey now c d)) = find_key i d"
  by (simp add: verify_store)





lemma delete_result:
  "deleteAccessKey i d =
     (Inr (), d\<lparr>usage_logs := filter (\<lambda>l. key_id l \<noteq> i) (usage_logs d),
                access_keys := filter (\<lambda>k. id_key k \<noteq> i) (access_keys d)\<rparr>)"
  by (auto simp: deleteAccessKey_def delete_usage_logs_def delete_access_keys_def)




lemma verify_pair: "verifyAccessKey now c d = (x, d1) \<Longrightarrow> d1 = d"
  using verify_store[of now c d] by simp

lemma usage_pair: "updateAccessKeyUsage j d = (x, d1) \<Longrightarrow> d1 = snd (updateAccessKeyUsage j d)"
  by simp

lemma log_pair: "logUsage now j ip txt s m d = (x, d1) \<Longrightarrow> d1 = snd (logUsage now j ip txt s m d)"
  by simp

lemma generate_card_store:
  fixes g :: "'j generation"
  assumes "P d"
    and "\<And>j e. P (snd (catch_block t2 req j e d :: 'j response \<times> db))"
    and "\<And>j e. P (snd (catch_block t2 req j e (snd (updateAccessKeyUsage j d)) :: 'j response \<times> db))"
    and "\<And>j ip tx. P (snd (logUsage t2 j ip tx True None (snd (updateAccessKeyUsage j d))))"
    and "\<And>j e ip tx. P (snd (catch_block t2 req j e (snd (logUsage t2 j ip tx True None (snd (updateAccessKeyUsage j d)))) :: 'j response \<times> db))"
  shows "P (snd (generate_card g t1 t2 req d))"
  unfolding generate_card_def Let_def using assms
  by (auto split: option.splits prod.splits sum.splits dest!: verify_pair usage_pair log_pair)


lemma create_key_store:
  "snd (create_key pwd now rnd req d) = d \<or>
   (\<exists>nm m dv. snd (create_key pwd now rnd req d) = snd (createAccessKey now rnd nm m dv d))"
  unfolding create_key_def
  by (simp split: prod.splits sum.splits) (metis snd_conv)

lemma update_key_store:
  "snd (update_key pwd req d) = d \<or>
   (\<exists>i m e. snd (update_key pwd req d) = snd (updateAccessKey i m e d))"
  unfolding update_key_def
  by (simp split: prod.splits sum.splits js_number.splits) (metis snd_conv)


subsection \<open>The constraints hold in every store a run reaches\<close>

lemma constraints_init: "constraints initDatabase"
  by (simp add: constraints_def initDatabase_def)

lemma constraints_verify: "constraints d \<Longrightarrow> constraints (snd (verifyAccessKey now c d))"
  by (simp add: verify_store)

lemma constraints_rows:
  assumes "constraints d" "map id_key ks = map id_key (access_keys d)"
    "map key_code ks = map key_code (access_keys d)"
  shows "constraints (d\<lparr>access_keys := ks\<rparr>)"
proof -
  have ids: "id_key ` set ks = id_key ` set (access_keys d)"
    using assms(2) by (metis list.set_map)
  have "\<forall>k\<in>set ks. 0 < id_key k \<and> id_key k \<le> access_keys_id_seq d"
  proof
    fix k assume "k \<in> set ks"
    then have "id_key k \<in> id_key ` set (access_keys d)" using ids by blast
    then show "0 < id_key k \<and> id_key k \<le> access_keys_id_seq d"
      using assms(1) by (auto simp: constraints_def list_all_iff)
  qed
  then show ?thesis
    using assms ids by (simp add: constraints_def list_all_iff)
qed

lemma constraints_usage: "constraints d \<Longrightarrow> constraints (snd (updateAccessKeyUsage j d))"
  unfolding updateAccessKeyUsage_def snd_conv
  by (rule constraints_rows) (simp_all add: comp_def if_distrib cong: if_cong)

lemma constraints_update: "constraints d \<Longrightarrow> constraints (snd (updateAccessKey j m e d))"
  unfolding updateAccessKey_def Let_def snd_conv
  by (rule constraints_rows) (simp_all add: comp_def if_distrib cong: if_cong)

lemma constraints_log: "constraints d \<Longrightarrow> constraints (snd (logUsage now j ip tx s m d))"
  by (fastforce simp: constraints_def logUsage_def Let_def list_all_iff)

lemma constraints_create: "constraints d \<Longrightarrow> constraints (snd (createAccessKey now rnd nm m dv d))"
  by (fastforce simp: constraints_def createAccessKey_def Let_def list_all_iff)

lemma constraints_delete: "constraints d \<Longrightarrow> constraints (snd (deleteAccessKey j d))"
  by (auto simp: constraints_def delete_result list_all_iff distinct_map_filter)

lemma constraints_catch: "constraints d \<Longrightarrow> constraints (snd (catch_block now req j e d))"
  using constraints_log[of d now j "ip_of req" "or_text (inputText req) []" False "message e"]
  by (auto simp: catch_block_def Let_def split: prod.splits sum.splits)

lemma constraints_generate_card: "constraints d \<Longrightarrow> constraints (snd (generate_card g t1 t2 req d))"
  by (rule generate_card_store) (simp_all add: constraints_catch constraints_log constraints_usage)

lemma constraints_exec: "constraints d \<Longrightarrow> constraints (exec x d)"
proof (cases x)
  case (CreateKeyRequest pwd now rnd req)
  assume "constraints d"
  then show ?thesis using CreateKeyRequest create_key_store[of pwd now rnd req d]
    by (auto simp: constraints_create)
next
  case (UpdateKeyRequest pwd req)
  assume "constraints d"
  then show ?thesis using UpdateKeyRequest update_key_store[of pwd req d]
    by (auto simp: constraints_update)
qed (simp_all add: constraints_create constraints_update constraints_delete constraints_verify
      constraints_usage constraints_log constraints_generate_card getAllKeys_def getKeyLogs_def)

lemma constraints_run: "constraints d \<Longrightarrow> constraints (run xs d)"
  by (induction xs arbitrary: d) (simp_all add: constraints_exec)

subsection \<open>An \<^verbatim>\<open>id\<close> is never drawn twice\<close>













subsection \<open>Creation, deletion, update\<close>





lemma delete_then_logs: "getKeyLogs i (snd (deleteAccessKey i d)) = (Inr [], snd (deleteAccessKey i d))"
  by (simp add: delete_result getKeyLogs_def filter_empty_conv)

lemma delete_then_verify:
  assumes "K \<in> set (access_keys d)" "distinct (map key_code (access_keys d))"
  shows "fst (verifyAccessKey now (key_code K) (snd (deleteAccessKey (id_key K) d))) = Inl InvalidKey"
proof -
  have "\<And>k. k \<in> set (access_keys d) \<Longrightarrow> key_code k = key_code K \<Longrightarrow> k = K"
    using assms by (auto simp: distinct_map inj_on_def)
  then have "filter (\<lambda>k. key_code k = key_code K \<and> is_active k)
               (filter (\<lambda>k. id_key k \<noteq> id_key K) (access_keys d)) = []"
    by (auto simp: filter_empty_conv)
  then show ?thesis by (simp add: delete_result verifyAccessKey_def)
qed

lemma delete_order: "deleteAccessKey i d = delete_access_keys i (snd (delete_usage_logs i d))"
  by (auto simp: deleteAccessKey_def delete_usage_logs_def delete_access_keys_def)

lemma delete_absent:
  assumes "i \<notin> set (map id_key (access_keys d))" "i \<notin> set (map key_id (usage_logs d))"
  shows "deleteAccessKey i d = (Inr (), d)"
proof -
  have "filter (\<lambda>k. id_key k \<noteq> i) (access_keys d) = access_keys d"
    using assms(1) by (auto simp: filter_id_conv)
  moreover have "filter (\<lambda>l. key_id l \<noteq> i) (usage_logs d) = usage_logs d"
    using assms(2) by (auto simp: filter_id_conv)
  ultimately show ?thesis by (simp add: delete_result)
qed





section \<open>The claims of the specification\<close>

text \<open>
  C1 (as amended). For a stored key \<open>K\<close>, whose code the schema makes unique,
  \<^verbatim>\<open>verifyAccessKey\<close> on the code of \<open>K\<close> admits \<open>K\<close> if and only if \<open>K\<close> is active, its expiry
  is absent or not before \<open>now\<close>, and its quota is unlimited or not used up; otherwise it throws
  \<open>InvalidKey\<close> for an inactive key, else \<open>Expired\<close> when the expiry is before \<open>now\<close>, else
  \<open>QuotaExhausted\<close>. A code that no active key carries is rejected with \<open>InvalidKey\<close>.
\<close>

theorem verify_admission:
  assumes "K \<in> set (access_keys d)" and "distinct (map key_code (access_keys d))"
  shows "(fst (verifyAccessKey now (key_code K) d) = Inr K \<longleftrightarrow>
            is_active K \<and>
            (case expires_at K of None \<Rightarrow> True | Some t \<Rightarrow> now \<le> t) \<and>
            (max_uses K = - 1 \<or> used_count K < max_uses K)) \<and>
         fst (verifyAccessKey now (key_code K) d) =
           (if \<not> is_active K then Inl InvalidKey
            else if (case expires_at K of None \<Rightarrow> False | Some t \<Rightarrow> t < now) then Inl Expired
            else if max_uses K \<noteq> - 1 \<and> max_uses K \<le> used_count K then Inl QuotaExhausted
            else Inr K) \<and>
         ((\<forall>k\<in>set (access_keys d). key_code k = c \<longrightarrow> \<not> is_active k) \<longrightarrow>
            fst (verifyAccessKey now c d) = Inl InvalidKey)"
proof -
  have "filter (\<lambda>k. key_code k = c \<and> is_active k) (access_keys d) = []"
    if "\<forall>k\<in>set (access_keys d). key_code k = c \<longrightarrow> \<not> is_active k"
    using that by (auto simp: filter_empty_conv)
  then have "(\<forall>k\<in>set (access_keys d). key_code k = c \<longrightarrow> \<not> is_active k) \<longrightarrow>
            fst (verifyAccessKey now c d) = Inl InvalidKey"
    by (simp add: verifyAccessKey_def)
  then show ?thesis
    unfolding verify_cases[OF assms]
    by (auto split: option.splits)
qed

theorem verify_admission_witness:
  "promo \<in> set (access_keys promo_store) \<and> distinct (map key_code (access_keys promo_store)) \<and>
   fst (verifyAccessKey 5 ''sk-promo'' promo_store) = Inr promo \<and>
   fst (verifyAccessKey 86400001 ''sk-promo'' promo_store) = Inl Expired \<and>
   fst (verifyAccessKey 5 ''sk-none'' promo_store) = Inl InvalidKey"
proof -
  have 1: "promo \<in> set (access_keys promo_store)" by (simp add: promo_store_def)
  have 2: "distinct (map key_code (access_keys promo_store))" by (simp add: promo_store_def)
  show ?thesis
    using 1 2 verify_admission[OF 1 2, of 5 "''sk-none''"] verify_admission[OF 1 2, of 86400001 "''sk-none''"]
    by (simp add: promo_def promo_store_def)
qed

text \<open>
  C1 as stated fails at the instant of expiry: the source rejects only when
  \<^verbatim>\<open>expires_at < now\<close>, so a key whose expiry equals \<open>now\<close> is admitted although its expiry is
  not after \<open>now\<close>.
\<close>

theorem verify_at_expiry_instant:
  "fst (verifyAccessKey 86400000 (key_code promo) promo_store) = Inr promo \<and>
   \<not> (is_active promo \<and>
       (expires_at promo = None \<or> the (expires_at promo) > 86400000) \<and>
       (max_uses promo = - 1 \<or> used_count promo < max_uses promo))"
  by (simp add: verifyAccessKey_def promo_def promo_store_def)






text \<open>
  C10. \<^verbatim>\<open>verifyAccessKey\<close> leaves the store as it is, whatever it returns. When the
  verification of a request rejects with \<open>e\<close>, the generation handler answers 500 with the
  message of \<open>e\<close> and leaves the store as it is: no row of \<^verbatim>\<open>usage_logs\<close> is written and no
  \<open>used_count\<close> changes, because \<^verbatim>\<open>keyId\<close> is still 0 when the \<^verbatim>\<open>catch\<close> block tests it.
  Requests refused before verification leave the store as it is too.
\<close>

theorem verify_read_only:
  "snd (verifyAccessKey now c d) = d \<and>
   (req_method req = ''POST'' \<and> authorization req = Some h \<and> startsWith h ''Bearer '' \<and>
    accessKey_of h = Some code \<and> fst (verifyAccessKey t1 code d) = Inl e \<longrightarrow>
      generate_card g t1 t2 req d =
        (Response 500 (ErrorBody (Some (or_text (message e) ''Internal Server Error''))), d)) \<and>
   (req_method req \<noteq> ''POST'' \<or> blank (authorization req) \<or> \<not> startsWith (the (authorization req)) ''Bearer '' \<longrightarrow>
      snd (generate_card g t1 t2 req d) = d)"
proof -
  have "snd (generate_card g t1 t2 req d) = d"
    if "req_method req \<noteq> ''POST'' \<or> blank (authorization req) \<or> \<not> startsWith (the (authorization req)) ''Bearer ''"
    using that by (auto simp: generate_card_def)
  then show ?thesis
    using rejection_path[of req h code t1 d e g t2] by (simp add: verify_store)
qed

theorem verify_read_only_witness:
  "fst (verifyAccessKey 5 ''sk-none'' promo_store) = Inl InvalidKey \<and>
   snd (verifyAccessKey 5 ''sk-promo'' promo_store) = promo_store \<and>
   snd (generate_card generation_ok 5 6 stranger_request promo_store) = promo_store \<and>
   snd (generate_card generation_ok 5 6 (stranger_request\<lparr>req_method := ''GET''\<rparr>) promo_store) = promo_store"
proof -
  have 5: "accessKey_of ''Bearer sk-none'' = Some ''sk-none''" by (simp add: accessKey_of_def)
  have 6: "fst (verifyAccessKey 5 ''sk-none'' promo_store) = Inl InvalidKey"
    by (simp add: verifyAccessKey_def promo_store_def promo_def)
  show ?thesis
    using 6 verify_read_only[of 5 "''sk-promo''" promo_store stranger_request "''Bearer sk-none''" "''sk-none''" 5 InvalidKey generation_ok 6]
      verify_read_only[of 5 "''sk-promo''" promo_store "stranger_request\<lparr>req_method := ''GET''\<rparr>" "''Bearer sk-none''" "''sk-none''" 5 InvalidKey generation_ok 6]
    by (simp add: stranger_request_def startsWith_def 5)
qed



text \<open>
  C5. \<^verbatim>\<open>deleteAccessKey\<close> always succeeds, whether or not a key has the \<^verbatim>\<open>id\<close>: it removes the
  rows of \<^verbatim>\<open>usage_logs\<close> that reference the \<^verbatim>\<open>id\<close>, then the rows of \<^verbatim>\<open>access_keys\<close> that have
  it, the second statement running on the store the first one left; nothing else changes, and
  where neither table has a row for the \<^verbatim>\<open>id\<close> the store is as before. Afterwards
  \<^verbatim>\<open>getKeyLogs\<close> for the \<^verbatim>\<open>id\<close> returns no row, and \<^verbatim>\<open>verifyAccessKey\<close> on the code of a
  deleted key throws \<open>InvalidKey\<close>.
\<close>

theorem delete_cascades:
  "deleteAccessKey i d =
     (Inr (), d\<lparr>usage_logs := filter (\<lambda>l. key_id l \<noteq> i) (usage_logs d),
                access_keys := filter (\<lambda>k. id_key k \<noteq> i) (access_keys d)\<rparr>) \<and>
   deleteAccessKey i d = delete_access_keys i (snd (delete_usage_logs i d)) \<and>
   (i \<notin> set (map id_key (access_keys d)) \<and> i \<notin> set (map key_id (usage_logs d)) \<longrightarrow>
      deleteAccessKey i d = (Inr (), d)) \<and>
   getKeyLogs i (snd (deleteAccessKey i d)) = (Inr [], snd (deleteAccessKey i d)) \<and>
   (\<forall>K\<in>set (access_keys d). id_key K = i \<and> distinct (map key_code (access_keys d)) \<longrightarrow>
      fst (verifyAccessKey now (key_code K) (snd (deleteAccessKey i d))) = Inl InvalidKey)"
  using delete_result[of i d] delete_order[of i d] delete_absent[of i d] delete_then_logs[of i d]
    delete_then_verify[of _ d now]
  by blast

theorem delete_cascades_witness:
  "deleteAccessKey 1 promo_used =
     (Inr (), \<lparr>access_keys = [], usage_logs = [], access_keys_id_seq = 1, usage_logs_id_seq = 1\<rparr>) \<and>
   deleteAccessKey 1 (snd (deleteAccessKey 1 promo_used)) = (Inr (), snd (deleteAccessKey 1 promo_used)) \<and>
   fst (getKeyLogs 1 (snd (deleteAccessKey 1 promo_used))) = Inr [] \<and>
   fst (verifyAccessKey 5 ''sk-promo'' promo_used) = Inr (promo\<lparr>used_count := 1\<rparr>) \<and>
   fst (verifyAccessKey 5 ''sk-promo'' (snd (deleteAccessKey 1 promo_used))) = Inl InvalidKey \<and>
   fst (delete_access_keys 1 promo_used) = Inl (ConstraintViolation usage_logs_key_id_fkey)"
proof -
  have 1: "promo\<lparr>used_count := 1\<rparr> \<in> set (access_keys promo_used)" by (simp add: promo_used_def)
  have 2: "id_key (promo\<lparr>used_count := 1\<rparr>) = 1 \<and> distinct (map key_code (access_keys promo_used))"
    by (simp add: promo_used_def promo_def)
  have 3: "key_code (promo\<lparr>used_count := 1\<rparr>) = ''sk-promo''" by (simp add: promo_def)
  have 4: "fst (verifyAccessKey 5 ''sk-promo'' promo_used) = Inr (promo\<lparr>used_count := 1\<rparr>)"
    by (simp add: verifyAccessKey_def promo_used_def promo_def)
  have 5: "fst (delete_access_keys 1 promo_used) = Inl (ConstraintViolation usage_logs_key_id_fkey)"
    by (simp add: delete_access_keys_def promo_used_def promo_def)
  have 6: "deleteAccessKey 1 promo_used =
     (Inr (), \<lparr>access_keys = [], usage_logs = [], access_keys_id_seq = 1, usage_logs_id_seq = 1\<rparr>)"
    using delete_cascades[of 1 promo_used 5] by (simp add: promo_used_def promo_def)
  have 7: "deleteAccessKey 1 (snd (deleteAccessKey 1 promo_used)) = (Inr (), snd (deleteAccessKey 1 promo_used))"
    using delete_cascades[of 1 "snd (deleteAccessKey 1 promo_used)" 5] by (simp add: 6)
  show ?thesis
    using 1 2 3 4 5 6 7 delete_cascades[of 1 promo_used 5]
    by (metis fst_conv)
qed














end
